theory Spec2Isabelle
  imports Complex_Main "HOL-Library.Multiset"
begin

section \<open>Strings\<close>



section \<open>Values of type \<^verbatim>\<open>unknown\<close>\<close>









section \<open>The file system\<close>





section \<open>config.ts: the account registry\<close>

text \<open>
  \<^verbatim>\<open>interface AccountConfig { id; email; displayName?; enabled; credentialPath?; tokenPath? }\<close>
  and \<^verbatim>\<open>interface AccountsConfig { defaultAccount: string | null; accounts: AccountConfig[] }\<close>.
  The field \<^verbatim>\<open>id\<close> is named \<open>id_acct\<close> here.
\<close>

record AccountConfig =
  id_acct :: string
  email :: string
  displayName :: "string option"
  enabled :: bool
  credentialPath :: "string option"
  tokenPath :: "string option"

record AccountsConfig =
  defaultAccount :: "string option"
  accounts :: "AccountConfig list"























text \<open>
  \<^verbatim>\<open>findIndex\<close> returns the index of the first match and \<open>-1\<close> when there is none;
  \<open>-1\<close> is \<open>None\<close> here.
\<close>

fun findIndex :: "('a \<Rightarrow> bool) \<Rightarrow> 'a list \<Rightarrow> nat option" where
  "findIndex P [] = None"
| "findIndex P (x # xs) =
     (if P x then Some 0 else (case findIndex P xs of None \<Rightarrow> None | Some i \<Rightarrow> Some (Suc i)))"

definition upsertAccount :: "AccountsConfig \<Rightarrow> AccountConfig \<Rightarrow> AccountsConfig" where
  "upsertAccount config nextAccount =
     (case findIndex (\<lambda>account. id_acct account = id_acct nextAccount) (accounts config) of
        None \<Rightarrow> config\<lparr>accounts := accounts config @ [nextAccount]\<rparr>
      | Some existingIndex \<Rightarrow>
          config\<lparr>accounts := (accounts config)[existingIndex := nextAccount]\<rparr>)"

section \<open>accounts.ts: the account resolver\<close>






section \<open>gmail-client.ts: credentials, tokens and the per-account client\<close>

text \<open>
  \<^verbatim>\<open>interface ParsedEmail\<close>. The fields \<^verbatim>\<open>id\<close>, \<^verbatim>\<open>from\<close> and \<^verbatim>\<open>to\<close> are named
  \<open>id_msg\<close>, \<open>from_addr\<close> and \<open>to_addr\<close>. \<open>internalDate\<close> is \<open>None\<close> for a value that
  \<^verbatim>\<open>Number.isFinite\<close> rejects (\<^verbatim>\<open>undefined\<close>, \<^verbatim>\<open>NaN\<close>, an infinity).
\<close>

record ParsedEmail =
  id_msg :: string
  threadId :: string
  snippet :: string
  from_addr :: string
  to_addr :: string
  subject :: string
  date :: string
  internalDate :: "real option"
  body :: "string option"
  labels :: "string list"
  accountId :: string
  accountEmail :: string











section \<open>index.ts: the tool handlers\<close>

definition emailDateForSort :: "ParsedEmail \<Rightarrow> real" where
  "emailDateForSort e = (case internalDate e of Some d \<Rightarrow> d | None \<Rightarrow> 0)"

text \<open>
  \<^verbatim>\<open>.sort((a, b) => emailDateForSort(b) - emailDateForSort(a))\<close>: \<^verbatim>\<open>Array.prototype.sort\<close>
  is stable, and the comparator puts the larger key first.
\<close>

definition sortDescending :: "ParsedEmail list \<Rightarrow> ParsedEmail list" where
  "sortDescending es = sort_key (\<lambda>e. - emailDateForSort e) es"















section \<open>The contribution of one account to the fan-out\<close>



section \<open>Example data\<close>

text \<open>
  Accounts and registries. \<open>acct\<close> is an account without path overrides; \<open>onboarded\<close> is
  an account as the onboarding steps store it under the configuration directory
  \<^verbatim>\<open>/cfg\<close>, with the paths of its two files.
\<close>

definition acct :: "string \<Rightarrow> bool \<Rightarrow> AccountConfig" where
  "acct i en = \<lparr>id_acct = i, email = ''e@x.com'', displayName = None, enabled = en,
                credentialPath = None, tokenPath = None\<rparr>"


definition registry :: "AccountConfig list \<Rightarrow> AccountsConfig" where
  "registry as = \<lparr>defaultAccount = None, accounts = as\<rparr>"













section \<open>Lemmas about identifiers and the resolver\<close>


















section \<open>Lemmas about loading the registry\<close>
















section \<open>Properties of the resolver\<close>












section \<open>Properties of the registry\<close>

lemma findIndex_None: "findIndex P xs = None \<longleftrightarrow> (\<forall>x \<in> set xs. \<not> P x)"
  by (induction xs) (auto split: option.splits)

lemma findIndex_Some:
  "findIndex P xs = Some i \<longleftrightarrow> i < length xs \<and> P (xs ! i) \<and> (\<forall>j < i. \<not> P (xs ! j))"
proof (induction xs arbitrary: i)
  case Nil
  then show ?case by simp
next
  case (Cons x xs)
  show ?case
  proof (cases "P x")
    case True
    then show ?thesis by (cases i) auto
  next
    case False
    show ?thesis
    proof (cases i)
      case 0
      with False show ?thesis by (auto split: option.splits)
    next
      case (Suc k)
      have "(\<forall>j < Suc k. \<not> P ((x # xs) ! j)) \<longleftrightarrow> (\<forall>j < k. \<not> P (xs ! j))"
        using False by (auto simp: less_Suc_eq_0_disj)
      with Suc False Cons.IH [of k] show ?thesis by (auto split: option.splits)
    qed
  qed
qed

lemma findIndex_append_new:
  "findIndex P xs = None \<Longrightarrow> P a \<Longrightarrow> findIndex P (xs @ [a]) = Some (length xs)"
  by (induction xs) (auto split: option.splits if_splits)

lemma findIndex_update_same:
  "findIndex P xs = Some i \<Longrightarrow> P a \<Longrightarrow> findIndex P (xs[i := a]) = Some i"
proof (induction xs arbitrary: i)
  case Nil
  then show ?case by simp
next
  case (Cons x xs)
  then show ?case by (cases i) (auto split: option.splits if_splits)
qed

lemma upsertAccount_absent:
  "id_acct a \<notin> id_acct ` set (accounts R) \<Longrightarrow>
   upsertAccount R a = R\<lparr>accounts := accounts R @ [a]\<rparr>"
proof -
  assume "id_acct a \<notin> id_acct ` set (accounts R)"
  then have "\<forall>x \<in> set (accounts R). id_acct x \<noteq> id_acct a"
    by (metis imageI)
  then have "findIndex (\<lambda>x. id_acct x = id_acct a) (accounts R) = None"
    by (simp add: findIndex_None)
  then show ?thesis by (simp add: upsertAccount_def)
qed

lemma upsertAccount_present:
  assumes "i < length (accounts R)" and "id_acct (accounts R ! i) = id_acct a"
    and "\<forall>j < i. id_acct (accounts R ! j) \<noteq> id_acct a"
  shows "upsertAccount R a = R\<lparr>accounts := (accounts R)[i := a]\<rparr>"
proof -
  have "findIndex (\<lambda>x. id_acct x = id_acct a) (accounts R) = Some i"
    using assms by (simp add: findIndex_Some)
  then show ?thesis by (simp add: upsertAccount_def)
qed

lemma upsertAccount_idem: "upsertAccount (upsertAccount R a) a = upsertAccount R a"
proof (cases "findIndex (\<lambda>x. id_acct x = id_acct a) (accounts R)")
  case None
  then have "findIndex (\<lambda>x. id_acct x = id_acct a) (accounts R @ [a]) = Some (length (accounts R))"
    by (rule findIndex_append_new) simp
  with None show ?thesis by (simp add: upsertAccount_def)
next
  case (Some i)
  then have "findIndex (\<lambda>x. id_acct x = id_acct a) ((accounts R)[i := a]) = Some i"
    by (rule findIndex_update_same) simp
  with Some show ?thesis by (simp add: upsertAccount_def)
qed

text \<open>
  C9. \<open>upsertAccount\<close> is a function of the registry and the account only. When no account
  of the registry has the id of \<open>a\<close>, the result is the registry with \<open>a\<close> appended at the
  end. When the first account with the id of \<open>a\<close> is at position \<open>i\<close>, the result is the
  registry with \<open>a\<close> at position \<open>i\<close>: the list keeps its length and every other position
  keeps its account. The default account is unchanged. Applying \<open>upsertAccount\<close> twice with
  the same account gives the registry that applying it once gives.
\<close>

theorem upsertAccount_replaces_or_appends:
  "(id_acct a \<notin> id_acct ` set (accounts R) \<longrightarrow>
      accounts (upsertAccount R a) = accounts R @ [a])
   \<and> (i < length (accounts R) \<and> id_acct (accounts R ! i) = id_acct a
        \<and> (\<forall>j < i. id_acct (accounts R ! j) \<noteq> id_acct a) \<longrightarrow>
      accounts (upsertAccount R a) = (accounts R)[i := a]
      \<and> length (accounts (upsertAccount R a)) = length (accounts R)
      \<and> accounts (upsertAccount R a) ! i = a
      \<and> (\<forall>k < length (accounts R). k \<noteq> i \<longrightarrow>
            accounts (upsertAccount R a) ! k = accounts R ! k))
   \<and> defaultAccount (upsertAccount R a) = defaultAccount R
   \<and> upsertAccount (upsertAccount R a) a = upsertAccount R a"
proof (intro conjI impI)
  assume "id_acct a \<notin> id_acct ` set (accounts R)"
  then show "accounts (upsertAccount R a) = accounts R @ [a]"
    by (simp add: upsertAccount_absent)
next
  assume h: "i < length (accounts R) \<and> id_acct (accounts R ! i) = id_acct a
    \<and> (\<forall>j < i. id_acct (accounts R ! j) \<noteq> id_acct a)"
  then have u: "upsertAccount R a = R\<lparr>accounts := (accounts R)[i := a]\<rparr>"
    by (simp add: upsertAccount_present)
  show "accounts (upsertAccount R a) = (accounts R)[i := a]" by (simp add: u)
  show "length (accounts (upsertAccount R a)) = length (accounts R)" by (simp add: u)
  show "accounts (upsertAccount R a) ! i = a" using h by (simp add: u)
  show "\<forall>k < length (accounts R). k \<noteq> i \<longrightarrow>
          accounts (upsertAccount R a) ! k = accounts R ! k"
    by (simp add: u)
next
  show "defaultAccount (upsertAccount R a) = defaultAccount R"
    by (simp add: upsertAccount_def split: option.splits)
next
  show "upsertAccount (upsertAccount R a) a = upsertAccount R a"
    by (rule upsertAccount_idem)
qed

text \<open>
  The theorem at a registry with the accounts \<open>home\<close> and \<open>work\<close>: the enabled \<open>work\<close>
  replaces the disabled one at position 1, and \<open>new\<close> is appended.
\<close>

theorem upsertAccount_replaces_or_appends_witness:
  "id_acct (acct ''new'' True)
     \<notin> id_acct ` set (accounts (registry [acct ''home'' True, acct ''work'' False]))
   \<and> accounts (upsertAccount (registry [acct ''home'' True, acct ''work'' False])
        (acct ''new'' True))
       = [acct ''home'' True, acct ''work'' False, acct ''new'' True]
   \<and> (1::nat) < length (accounts (registry [acct ''home'' True, acct ''work'' False]))
   \<and> id_acct (accounts (registry [acct ''home'' True, acct ''work'' False]) ! 1)
       = id_acct (acct ''work'' True)
   \<and> id_acct (accounts (registry [acct ''home'' True, acct ''work'' False]) ! 0)
       \<noteq> id_acct (acct ''work'' True)
   \<and> accounts (upsertAccount (registry [acct ''home'' True, acct ''work'' False])
        (acct ''work'' True))
       = [acct ''home'' True, acct ''work'' True]"
  using
    upsertAccount_replaces_or_appends [of "acct ''new'' True"
      "registry [acct ''home'' True, acct ''work'' False]"]
    upsertAccount_replaces_or_appends [of "acct ''work'' True"
      "registry [acct ''home'' True, acct ''work'' False]" 1]
  by (simp add: acct_def registry_def)

section \<open>Properties of loading the registry\<close>



section \<open>Properties of the read and search handlers\<close>








section \<open>Properties of the fan-out\<close>



lemma sortDescending_stable:
  "filter (\<lambda>e. emailDateForSort e = d) (sortDescending es)
     = filter (\<lambda>e. emailDateForSort e = d) es"
  using sort_key_stable [of "\<lambda>e. - emailDateForSort e" "- d" es]
  by (simp add: sortDescending_def)












section \<open>Properties of the onboarding Finish step\<close>










end
